theory Spec2Isabelle
  imports Complex_Main "HOL-Library.Sublist" "HOL-Library.AList"
begin

section \<open>Python values used by \<open>faim_robocopy/robocopy.py\<close>\<close>

text \<open>
  A \<open>bytes\<close> object is a list of 8-bit characters, a \<open>str\<close> is a list of Unicode
  code points, a path is a string that is only ever compared with \<open>''\<close>.
\<close>

type_synonym bytes = "char list"
type_synonym str = "nat list"
type_synonym path = string

text \<open>The named tuple \<open>RobocopyErrorInfo(code, action, reason)\<close> (lines 365-366).\<close>

datatype RobocopyErrorInfo = RobocopyErrorInfo (code: str) (action: str) (reason: str)

text \<open>
  The exceptions that the module raises or lets through. \<open>RobocopyError\<close> carries
  \<open>returncode\<close> and \<open>error_info\<close> (lines 318-323); \<open>error_info\<close> is \<open>None\<close> or a list.
  \<open>OSError\<close> is what a helper that reads the file system may raise.
\<close>

datatype py_exception =
    RobocopyError int "RobocopyErrorInfo list option"
  | UnicodeDecodeError
  | TypeError
  | RuntimeError string
  | KeyError path
  | OSError string

fun is_RobocopyError :: "py_exception \<Rightarrow> bool" where
  "is_RobocopyError (RobocopyError rc info) = True"
| "is_RobocopyError e = False"

text \<open>The messages handed to the logger, one constructor per call site.\<close>

datatype log_entry =
    WarnDestinationMissing path
  | WarnStopping
  | InfoStarting
  | InfoStoppingAfterWait
  | InfoWaiting
  | InfoSummary
  | InfoCount path nat
  | InfoCountIdentical path nat nat
  | InfoDeleted path int
  | ErrorCount path
  | DebugJobCancelled
  | DebugJobOk
  | ErrorRobocopy py_exception
  | ErrorOther py_exception
  | DebugNonzeroExit int
  | DebugNotAFailure int
  | DebugCouldNotParse
  | DebugRawStdout str
  | InfoSource path
  | InfoDestination nat path
  | DebugTimeSinceChange int

text \<open>What the outside world sees of a task: its log and the calls of the notifier.\<close>

datatype event = Log log_entry | NotifierFailed py_exception | NotifierFinished

section \<open>\<open>_sanitize_destinations\<close> (lines 17-35)\<close>

text \<open>
  The argument is either a tuple or list of paths, or anything else, which line 22 wraps
  in a one-element list.
\<close>

datatype destinations_arg = Single path | Many "path list"

fun as_list :: "destinations_arg \<Rightarrow> path list" where
  "as_list (Single d) = [d]"
| "as_list (Many ds) = ds"

text \<open>Lines 25-30: the warnings, one for each non-empty entry that is no directory.\<close>

fun destination_warnings :: "(path \<Rightarrow> bool) \<Rightarrow> path list \<Rightarrow> event list" where
  "destination_warnings isdir [] = []"
| "destination_warnings isdir (dest # ds) =
     (if dest = [] then destination_warnings isdir ds
      else if \<not> isdir dest then Log (WarnDestinationMissing dest) # destination_warnings isdir ds
      else destination_warnings isdir ds)"

text \<open>Lines 33-35: the comprehension, entry by entry.\<close>

fun keep_existing :: "(path \<Rightarrow> bool) \<Rightarrow> path list \<Rightarrow> path list" where
  "keep_existing ex [] = []"
| "keep_existing ex (dest # ds) =
     (if dest \<noteq> [] \<and> ex dest then dest # keep_existing ex ds else keep_existing ex ds)"

definition sanitize_destinations ::
  "(path \<Rightarrow> bool) \<Rightarrow> (path \<Rightarrow> bool) \<Rightarrow> destinations_arg \<Rightarrow> event list \<times> path list" where
  "sanitize_destinations isdir ex destinations =
     (let ds = as_list destinations
      in (destination_warnings isdir ds, keep_existing ex ds))"

section \<open>Decoding the output of robocopy\<close>

text \<open>What a call does: it returns a value or raises.\<close>

datatype 'a outcome = Returns 'a | Raises py_exception

text \<open>
  \<open>bytes.decode('UTF-8')\<close> with the default strict error handling: the shortest
  encoding of every code point up to \<open>0x10FFFF\<close> that is no surrogate, and nothing
  else. \<open>None\<close> stands for \<open>UnicodeDecodeError\<close>.
\<close>

definition cont :: "nat \<Rightarrow> bool" where
  "cont b = (0x80 \<le> b \<and> b \<le> 0xBF)"

fun utf8_decode :: "nat list \<Rightarrow> str option" where
  "utf8_decode [] = Some []"
| "utf8_decode (b0 # bs) =
     (if b0 < 0x80 then map_option ((#) b0) (utf8_decode bs)
      else if 0xC2 \<le> b0 \<and> b0 \<le> 0xDF then
        (case bs of
           b1 # r \<Rightarrow>
             if cont b1
             then map_option ((#) ((b0 - 0xC0) * 64 + (b1 - 0x80))) (utf8_decode r)
             else None
         | _ \<Rightarrow> None)
      else if 0xE0 \<le> b0 \<and> b0 \<le> 0xEF then
        (case bs of
           b1 # b2 # r \<Rightarrow>
             if cont b1 \<and> cont b2 \<and> (b0 = 0xE0 \<longrightarrow> 0xA0 \<le> b1) \<and> (b0 = 0xED \<longrightarrow> b1 \<le> 0x9F)
             then map_option
                    ((#) ((b0 - 0xE0) * 4096 + (b1 - 0x80) * 64 + (b2 - 0x80)))
                    (utf8_decode r)
             else None
         | _ \<Rightarrow> None)
      else if 0xF0 \<le> b0 \<and> b0 \<le> 0xF4 then
        (case bs of
           b1 # b2 # b3 # r \<Rightarrow>
             if cont b1 \<and> cont b2 \<and> cont b3 \<and> (b0 = 0xF0 \<longrightarrow> 0x90 \<le> b1)
                \<and> (b0 = 0xF4 \<longrightarrow> b1 \<le> 0x8F)
             then map_option
                    ((#) ((b0 - 0xF0) * 262144 + (b1 - 0x80) * 4096 + (b2 - 0x80) * 64
                          + (b3 - 0x80)))
                    (utf8_decode r)
             else None
         | _ \<Rightarrow> None)
      else None)"

definition decode :: "bytes \<Rightarrow> str option" where
  "decode output = utf8_decode (map of_char output)"

text \<open>A \<open>str\<close> literal of the source, as code points.\<close>

definition cps :: "string \<Rightarrow> str" where
  "cps lit = map of_char lit"

section \<open>The regular expression of line 356\<close>

text \<open>
  The character classes of the pattern, for a \<open>str\<close> pattern: \<open>\s\<close> is Unicode white
  space, \<open>\d\<close> is a Unicode decimal digit, \<open>[0-9a-fA-F]\<close>, and \<open>.\<close> is everything but
  the newline. The decimal digits beyond \<open>0-9\<close> are those of the interpreter's Unicode
  tables (category Nd), which are no part of the repository: they are the parameter
  \<open>nd\<close>.
\<close>

datatype cls = Space | Digit | HexDigit | AnyButNewline

definition is_space :: "nat \<Rightarrow> bool" where
  "is_space c =
     ((0x09 \<le> c \<and> c \<le> 0x0D) \<or> (0x1C \<le> c \<and> c \<le> 0x20) \<or> c = 0x85 \<or> c = 0xA0
      \<or> c = 0x1680 \<or> (0x2000 \<le> c \<and> c \<le> 0x200A) \<or> c = 0x2028 \<or> c = 0x2029
      \<or> c = 0x202F \<or> c = 0x205F \<or> c = 0x3000)"

definition is_ascii_digit :: "nat \<Rightarrow> bool" where
  "is_ascii_digit c = (0x30 \<le> c \<and> c \<le> 0x39)"

definition is_hex_digit :: "nat \<Rightarrow> bool" where
  "is_hex_digit c =
     (is_ascii_digit c \<or> (0x61 \<le> c \<and> c \<le> 0x66) \<or> (0x41 \<le> c \<and> c \<le> 0x46))"

fun in_cls :: "(nat \<Rightarrow> bool) \<Rightarrow> cls \<Rightarrow> nat \<Rightarrow> bool" where
  "in_cls nd Space c = is_space c"
| "in_cls nd Digit c = (is_ascii_digit c \<or> nd c)"
| "in_cls nd HexDigit c = is_hex_digit c"
| "in_cls nd AnyButNewline c = (c \<noteq> 0x0A)"

text \<open>
  The pattern is a sequence of: a literal; a class repeated at least \<open>m\<close> times, greedy
  (\<open>c+\<close> is \<open>Rep 1 c\<close>, \<open>c*\<close> is \<open>Rep 0 c\<close>); the same as a capturing group; \<open>^\<close> and
  \<open>$\<close> under \<open>re.MULTILINE\<close>.
\<close>

datatype atom = Lit str | Rep nat cls | Cap nat cls | Bol | Eol

definition error_pattern :: "atom list" where
  "error_pattern =
     [Lit (cps ''ERROR''), Rep 1 Space, Cap 1 Digit, Rep 1 Space, Lit (cps ''(0x''),
      Rep 1 HexDigit, Lit (cps '')''), Rep 1 Space, Cap 0 AnyButNewline, Lit [0x0A], Bol,
      Cap 0 AnyButNewline, Eol]"

text \<open>The character before the position, after \<open>k\<close> more characters of \<open>r\<close> are consumed.\<close>

definition prev_after :: "nat option \<Rightarrow> str \<Rightarrow> nat \<Rightarrow> nat option" where
  "prev_after pv r k = (if k = 0 then pv else Some (r ! (k - 1)))"

text \<open>
  The backtracking matcher. \<open>rx_matches nd p pv r\<close> lists every way in which \<open>p\<close> matches
  at the start of \<open>r\<close>, where \<open>pv\<close> is the character before \<open>r\<close> (\<open>None\<close> at the start
  of the text), in the order in which backtracking finds them: a repetition tries the
  longest run first, then gives back one character at a time. A match is the captured
  groups, the last character consumed and the rest of the text.
\<close>

fun rx_matches ::
  "(nat \<Rightarrow> bool) \<Rightarrow> atom list \<Rightarrow> nat option \<Rightarrow> str \<Rightarrow> (str list \<times> nat option \<times> str) list" where
  "rx_matches nd [] pv r = [([], pv, r)]"
| "rx_matches nd (Lit l # p) pv r =
     (if prefix l r then rx_matches nd p (prev_after pv r (length l)) (drop (length l) r)
      else [])"
| "rx_matches nd (Rep m c # p) pv r =
     concat (map (\<lambda>k. rx_matches nd p (prev_after pv r k) (drop k r))
               (rev [m..<Suc (length (takeWhile (in_cls nd c) r))]))"
| "rx_matches nd (Cap m c # p) pv r =
     concat (map (\<lambda>k. map (\<lambda>(caps, pv', r'). (take k r # caps, pv', r'))
                         (rx_matches nd p (prev_after pv r k) (drop k r)))
               (rev [m..<Suc (length (takeWhile (in_cls nd c) r))]))"
| "rx_matches nd (Bol # p) pv r =
     (if pv = None \<or> pv = Some 0x0A then rx_matches nd p pv r else [])"
| "rx_matches nd (Eol # p) pv r =
     (if r = [] \<or> hd r = 0x0A then rx_matches nd p pv r else [])"

text \<open>The match that the engine reports at a position: the first one, if any.\<close>

definition rx_first ::
  "(nat \<Rightarrow> bool) \<Rightarrow> atom list \<Rightarrow> nat option \<Rightarrow> str \<Rightarrow> (str list \<times> nat option \<times> str) option" where
  "rx_first nd p pv r = (case rx_matches nd p pv r of [] \<Rightarrow> None | x # xs \<Rightarrow> Some x)"

text \<open>
  \<open>re.findall\<close>: the groups of the leftmost match, then of the leftmost match in what is
  left behind it, and so on. After a match that consumed nothing the search moves on
  by one character; no match of \<open>error_pattern\<close> is empty.
\<close>

function findall :: "(nat \<Rightarrow> bool) \<Rightarrow> atom list \<Rightarrow> nat option \<Rightarrow> str \<Rightarrow> str list list" where
  "findall nd p pv r =
     (case rx_first nd p pv r of
        Some (caps, pv', r') \<Rightarrow>
          caps # (if length r' < length r then findall nd p pv' r'
                  else (case r of [] \<Rightarrow> [] | x # xs \<Rightarrow> findall nd p (Some x) xs))
      | None \<Rightarrow> (case r of [] \<Rightarrow> [] | x # xs \<Rightarrow> findall nd p (Some x) xs))"
  by pat_completeness auto
termination
  by (relation "measure (\<lambda>(nd, p, pv, r). length r)") auto

text \<open>The number of groups of a pattern, and the least number of characters it consumes.\<close>

fun is_cap :: "atom \<Rightarrow> bool" where
  "is_cap (Cap m c) = True"
| "is_cap a = False"

definition ngroups :: "atom list \<Rightarrow> nat" where
  "ngroups p = length (filter is_cap p)"

fun min_len :: "atom list \<Rightarrow> nat" where
  "min_len [] = 0"
| "min_len (Lit l # p) = length l + min_len p"
| "min_len (Rep m c # p) = m + min_len p"
| "min_len (Cap m c # p) = m + min_len p"
| "min_len (Bol # p) = min_len p"
| "min_len (Eol # p) = min_len p"

section \<open>Error blocks, as the specification words them\<close>

text \<open>
  The text of an error block: the word \<open>ERROR\<close>, white space \<open>w1\<close>, the code \<open>c\<close>, white
  space \<open>w2\<close>, a hexadecimal number \<open>h\<close> in parentheses, white space \<open>w3\<close>, the action
  \<open>a\<close>, a newline, and the reason \<open>rsn\<close>.
\<close>

definition error_block :: "str \<Rightarrow> str \<Rightarrow> str \<Rightarrow> str \<Rightarrow> str \<Rightarrow> str \<Rightarrow> str \<Rightarrow> str" where
  "error_block w1 c w2 h w3 a rsn =
     cps ''ERROR'' @ w1 @ c @ w2 @ cps ''(0x'' @ h @ cps '')'' @ w3 @ a @ [0x0A] @ rsn"

text \<open>
  The block is well formed: the white space is white space and not empty, the code is
  a decimal number, the hexadecimal number is one, the action starts with a visible
  character, and neither the action nor the reason runs over a line end.
\<close>

definition well_formed_block ::
  "(nat \<Rightarrow> bool) \<Rightarrow> str \<Rightarrow> str \<Rightarrow> str \<Rightarrow> str \<Rightarrow> str \<Rightarrow> str \<Rightarrow> str \<Rightarrow> bool" where
  "well_formed_block nd w1 c w2 h w3 a rsn =
     (w1 \<noteq> [] \<and> list_all is_space w1 \<and> c \<noteq> [] \<and> list_all (in_cls nd Digit) c
      \<and> w2 \<noteq> [] \<and> list_all is_space w2 \<and> h \<noteq> [] \<and> list_all is_hex_digit h
      \<and> w3 \<noteq> [] \<and> list_all is_space w3
      \<and> a \<noteq> [] \<and> \<not> is_space (hd a) \<and> 0x0A \<notin> set a \<and> 0x0A \<notin> set rsn)"

text \<open>\<open>str.strip()\<close>: white space goes from both ends.\<close>

definition strip_space :: "str \<Rightarrow> str" where
  "strip_space val = rev (dropWhile is_space (rev (dropWhile is_space val)))"

section \<open>\<open>parse_errors_from_robocopy_stdout\<close> (lines 350-371)\<close>

text \<open>\<open>val.strip('\r')\<close>: carriage returns go from both ends, nothing else does.\<close>

definition strip_cr :: "str \<Rightarrow> str" where
  "strip_cr val = rev (dropWhile (\<lambda>c. c = 0x0D) (rev (dropWhile (\<lambda>c. c = 0x0D) val)))"

text \<open>
  \<open>RobocopyErrorInfo(*[...])\<close> takes exactly three values; with any other number the
  constructor of the named tuple raises \<open>TypeError\<close>, which is \<open>None\<close> here.
\<close>

fun error_info_of :: "str list \<Rightarrow> RobocopyErrorInfo option" where
  "error_info_of [c, a, r] = Some (RobocopyErrorInfo (strip_cr c) (strip_cr a) (strip_cr r))"
| "error_info_of vals = None"

fun all_some :: "'a option list \<Rightarrow> 'a list option" where
  "all_some [] = Some []"
| "all_some (None # xs) = None"
| "all_some (Some x # xs) = map_option ((#) x) (all_some xs)"

definition parse_errors_from_robocopy_stdout ::
  "(nat \<Rightarrow> bool) \<Rightarrow> bytes \<Rightarrow> event list \<times> RobocopyErrorInfo list option outcome" where
  "parse_errors_from_robocopy_stdout nd output =
     (case decode output of
        None \<Rightarrow> ([], Raises UnicodeDecodeError)
      | Some text \<Rightarrow>
          (let matches = findall nd error_pattern None text
           in if matches = []
              then ([Log DebugCouldNotParse, Log (DebugRawStdout text)], Returns None)
              else (case all_some (map error_info_of matches) of
                      None \<Rightarrow> ([], Raises TypeError)
                    | Some infos \<Rightarrow> ([], Returns (Some infos)))))"

section \<open>\<open>robocopy_call\<close> (lines 254-311)\<close>

text \<open>Lines 275-296: the command line, and whether it goes through the shell.\<close>

definition robocopy_cmd :: "path \<Rightarrow> path \<Rightarrow> int \<Rightarrow> string \<Rightarrow> string list" where
  "robocopy_cmd source dest secure_mode skip_files =
     [''robocopy'', source, dest, ''/XF'', ''*.'' @ skip_files, ''/e'', ''/COPY:DT'']
     @ (if secure_mode = 1 then [''/r:0'', ''/w:30'', ''/dcopy:T'', ''/Z''] else [])
     @ [''/V'', ''/njh'', ''/njs'']"

text \<open>
  Lines 298-311. \<open>subprocess\<close> stands for the run of the external program: from the
  command line and the \<open>shell\<close> flag to its exit status and its captured output.
  \<open>check_output\<close> raises \<open>CalledProcessError\<close> for every status but 0.
\<close>

definition robocopy_call ::
  "(nat \<Rightarrow> bool) \<Rightarrow> (string list \<Rightarrow> bool \<Rightarrow> int \<times> bytes) \<Rightarrow> path \<Rightarrow> path \<Rightarrow> int \<Rightarrow> int \<Rightarrow> string
     \<Rightarrow> event list \<times> unit outcome" where
  "robocopy_call nd subprocess source dest silent secure_mode skip_files =
     (let cmd = robocopy_cmd source dest secure_mode skip_files;
          shell = (silent = 0);
          (exit_code, output) = subprocess cmd shell
      in if exit_code = 0 then ([], Returns ())
         else if exit_code \<ge> 8 then
           (case parse_errors_from_robocopy_stdout nd output of
              (lg, Raises e) \<Rightarrow> (Log (DebugNonzeroExit exit_code) # lg, Raises e)
            | (lg, Returns error_info) \<Rightarrow>
                (Log (DebugNonzeroExit exit_code) # lg,
                 Raises (RobocopyError exit_code error_info)))
         else if 2 \<le> exit_code \<and> exit_code < 8 then
           ([Log (DebugNonzeroExit exit_code), Log (DebugNotAFailure exit_code)], Returns ())
         else ([Log (DebugNonzeroExit exit_code)], Returns ()))"

section \<open>Futures of the thread pool\<close>

text \<open>
  A \<open>concurrent.futures.Future\<close>: pending until a worker takes it, then running, then
  finished with the exception of the call (or none); a pending future can be cancelled.
  \<open>f_dest\<close> is the \<open>dest\<close> argument of the submitted \<open>robocopy_call\<close>, \<open>f_callback\<close>
  tells whether \<open>_robocopy_callback\<close> has been added as done-callback.
\<close>

datatype fstate = PENDING | RUNNING | CANCELLED | FINISHED "py_exception option"

record future =
  f_dest :: path
  f_state :: fstate
  f_callback :: bool

fun cancelled :: "fstate \<Rightarrow> bool" where
  "cancelled CANCELLED = True"
| "cancelled st = False"

fun is_done :: "fstate \<Rightarrow> bool" where
  "is_done CANCELLED = True"
| "is_done (FINISHED e) = True"
| "is_done st = False"

fun is_running_job :: "fstate \<Rightarrow> bool" where
  "is_running_job RUNNING = True"
| "is_running_job st = False"

fun exception_of :: "fstate \<Rightarrow> py_exception option" where
  "exception_of (FINISHED e) = e"
| "exception_of st = None"

text \<open>
  \<open>_robocopy_callback\<close> (lines 163-182), as the list of what it logs and what it tells
  the notifier.
\<close>

definition robocopy_callback :: "fstate \<Rightarrow> event list" where
  "robocopy_callback st =
     (if cancelled st then [Log DebugJobCancelled]
      else if is_done st then
        (case exception_of st of
           Some error \<Rightarrow>
             [Log (if is_RobocopyError error then ErrorRobocopy error else ErrorOther error),
              NotifierFailed error]
         | None \<Rightarrow> [Log DebugJobOk])
      else [])"

section \<open>The task\<close>

text \<open>
  Where the thread that executes \<open>run\<close> stands. \<open>Idle\<close>: \<open>run\<close> has not been called.
  \<open>Entered\<close>: after \<open>__enter__\<close>. \<open>LoopHead\<close>: line 200. \<open>CheckExpired\<close>: line 208.
  \<open>ForDest i\<close>: line 215 at the \<open>i\<close>-th destination. \<open>Delete\<close>: line 231.
  \<open>Sleep k\<close>: line 240 with \<open>k\<close> rounds left. \<open>Shutdown\<close>: leaving the
  \<open>with ThreadPoolExecutor\<close> block at its end. \<open>Unwind e\<close>: leaving that block with the
  exception \<open>e\<close>. \<open>Returned\<close> and \<open>Raised\<close>: \<open>run\<close> is over.
\<close>

datatype pc =
    Idle | Entered | LoopHead | CheckExpired | ForDest nat | Delete | Sleep nat
  | Shutdown | Unwind py_exception | Returned | Raised py_exception

text \<open>
  The object (\<open>_running\<close>, \<open>futures\<close>, \<open>_update_rate_in_s\<close>, \<open>_time_at_last_change\<close>),
  the locals of \<open>_run\<close> (\<open>destinations\<close>, \<open>max_workers\<close>, \<open>n_deleted\<close>), every future
  the pool has handed out, and the events so far. A value of the dictionary \<open>futures\<close> is
  the index of its future in \<open>pool\<close>. A \<open>datetime\<close> is a number of microseconds.
\<close>

record state =
  running :: bool
  futures :: "(path \<times> nat) list"
  update_rate_in_s :: rat
  time_at_last_change :: int
  dests :: "path list"
  max_workers :: nat
  n_deleted :: int
  pool :: "future list"
  events :: "event list"
  pc :: pc

text \<open>\<open>__init__\<close> (lines 76-82), with the clock reading of line 82.\<close>

definition init :: "int \<Rightarrow> state" where
  "init now =
     \<lparr>running = False, futures = [], update_rate_in_s = 5, time_at_last_change = now,
      dests = [], max_workers = 0, n_deleted = 0, pool = [], events = [], pc = Idle\<rparr>"

definition is_running :: "state \<Rightarrow> bool" where
  "is_running s = running s"

definition update_changed :: "int \<Rightarrow> state \<Rightarrow> state" where
  "update_changed now s = s\<lparr>time_at_last_change := now\<rparr>"

text \<open>The done-callbacks of future \<open>j\<close> run: when it is cancelled and when it finishes.\<close>

definition invoke_callbacks :: "nat \<Rightarrow> state \<Rightarrow> state" where
  "invoke_callbacks j s =
     (if f_callback (pool s ! j)
      then s\<lparr>events := events s @ robocopy_callback (f_state (pool s ! j))\<rparr>
      else s)"

definition set_fstate :: "nat \<Rightarrow> fstate \<Rightarrow> state \<Rightarrow> state" where
  "set_fstate j st s = s\<lparr>pool := (pool s)[j := (pool s ! j)\<lparr>f_state := st\<rparr>]\<rparr>"

text \<open>\<open>Future.cancel\<close>: only a pending future changes, and its callbacks run.\<close>

definition cancel :: "nat \<Rightarrow> state \<Rightarrow> state" where
  "cancel j s =
     (if j < length (pool s) \<and> f_state (pool s ! j) = PENDING
      then invoke_callbacks j (set_fstate j CANCELLED s)
      else s)"

text \<open>\<open>terminate\<close> (lines 84-95).\<close>

definition terminate :: "state \<Rightarrow> state" where
  "terminate s =
     (let s1 = (if is_running s then s\<lparr>events := events s @ [Log WarnStopping]\<rparr> else s);
          s2 = foldl (\<lambda>s' future. cancel future s') s1 (map snd (futures s1))
      in s2\<lparr>running := False\<rparr>)"

text \<open>\<open>thread_pool.submit(robocopy_call, dest=dest, ...)\<close>: a new pending future.\<close>

definition submit :: "path \<Rightarrow> state \<Rightarrow> state" where
  "submit dest s =
     s\<lparr>pool := pool s @ [\<lparr>f_dest = dest, f_state = PENDING, f_callback = False\<rparr>]\<rparr>"

text \<open>
  \<open>Future.add_done_callback\<close>: the callback is kept, and called at once when the future
  is done already.
\<close>

definition add_done_callback :: "nat \<Rightarrow> state \<Rightarrow> state" where
  "add_done_callback j s =
     (let s1 = s\<lparr>pool := (pool s)[j := (pool s ! j)\<lparr>f_callback := True\<rparr>]\<rparr>
      in if is_done (f_state (pool s ! j))
         then s1\<lparr>events := events s1 @ robocopy_callback (f_state (pool s ! j))\<rparr>
         else s1)"

text \<open>
  Lines 186-194: the dictionary comprehension submits one call for each entry of
  \<open>destinations\<close>, a later entry with the same key replacing the value of an earlier one.
\<close>

fun submit_all :: "path list \<Rightarrow> state \<Rightarrow> state" where
  "submit_all [] s = s"
| "submit_all (dest # ds) s =
     submit_all ds
       ((submit dest s)\<lparr>futures := AList.update dest (length (pool s)) (futures s)\<rparr>)"

section \<open>\<open>run\<close> and \<open>_run\<close> (lines 117-251), step by step\<close>

text \<open>The arguments of \<open>run\<close>; \<open>silent\<close> and \<open>secure_mode\<close> are the \<open>robocopy_kwargs\<close>.\<close>

record config =
  source :: path
  destinations :: destinations_arg
  multithread :: bool
  time_interval :: rat
  wait_exit :: rat
  delete_source :: bool
  skip_files :: string
  silent :: int
  secure_mode :: int

text \<open>
  What a step of the thread takes from outside the module.

  \<^item> The file system (\<open>os.path.isdir\<close>, \<open>os.path.exists\<close>) and the clock.

  \<^item> The floating-point arithmetic of the interpreter, with a float given as the
    rational number that it is: \<open>o_total_seconds d\<close> is \<open>total_seconds()\<close> of a difference
    of \<open>d\<close> microseconds, \<open>o_mul x y\<close> and \<open>o_div x y\<close> are the rounded product and
    quotient. Comparing two floats and \<open>int\<close> of a float are exact.

  \<^item> The helpers of \<open>faim_robocopy.utils\<close>, which are no part of the source. A call of
    \<open>is_filetree_a_subset_of\<close> for the destination at hand and a call of
    \<open>delete_existing\<close> return a value or raise; for the two counters of the report
    \<open>None\<close> stands for an exception, all of which \<open>_report\<close> treats alike.
\<close>

record obs =
  o_isdir :: "path \<Rightarrow> bool"
  o_exists :: "path \<Rightarrow> bool"
  o_now :: int
  o_total_seconds :: "int \<Rightarrow> rat"
  o_mul :: "rat \<Rightarrow> rat \<Rightarrow> rat"
  o_div :: "rat \<Rightarrow> rat \<Rightarrow> rat"
  o_subset :: "bool outcome"
  o_deleted :: "int outcome"
  o_count_files :: "path \<Rightarrow> nat option"
  o_count_identical :: "path \<Rightarrow> nat option"

text \<open>
  \<open>_wait_has_expired\<close> (lines 102-110): what it logs, the difference in microseconds
  standing for the float that is printed, and what it returns.
\<close>

definition wait_has_expired :: "obs \<Rightarrow> rat \<Rightarrow> state \<Rightarrow> event list \<times> bool" where
  "wait_has_expired ob time_to_exit_in_s s =
     (let time_since_update = o_total_seconds ob (o_now ob - time_at_last_change s)
      in ([Log (DebugTimeSinceChange (o_now ob - time_at_last_change s))],
          time_since_update \<ge> time_to_exit_in_s))"

text \<open>\<open>_report\<close> (lines 38-67).\<close>

fun report_folders :: "obs \<Rightarrow> path \<Rightarrow> int \<Rightarrow> path list \<Rightarrow> event list" where
  "report_folders ob src n [] = []"
| "report_folders ob src n (folder # fs) =
     (if folder = [] then report_folders ob src n fs
      else
        (case o_count_files ob folder of
           None \<Rightarrow> [Log (ErrorCount folder)]
         | Some filecount \<Rightarrow>
             if folder \<noteq> src then
               (case o_count_identical ob folder of
                  None \<Rightarrow> [Log (ErrorCount folder)]
                | Some identical \<Rightarrow> [Log (InfoCountIdentical folder filecount identical)])
             else Log (InfoCount folder filecount)
                  # (if n > 0 then [Log (InfoDeleted folder n)] else []))
        @ report_folders ob src n fs)"

definition report :: "obs \<Rightarrow> path \<Rightarrow> path list \<Rightarrow> int \<Rightarrow> event list" where
  "report ob src ds n = report_folders ob src n (src # ds)"

text \<open>\<open>__enter__\<close> and \<open>__exit__\<close> (lines 117-126).\<close>

definition enter :: "state \<Rightarrow> state" where
  "enter s = s\<lparr>events := events s @ [Log InfoStarting], running := True\<rparr>"

definition exit_scope :: "state \<Rightarrow> state" where
  "exit_scope s = s\<lparr>running := False\<rparr>"

text \<open>Lines 150-153: the source and the numbered destinations are logged.\<close>

fun folder_log :: "nat \<Rightarrow> path list \<Rightarrow> event list" where
  "folder_log counter [] = []"
| "folder_log counter (dest # ds) =
     Log (InfoDestination (counter + 1) dest) # folder_log (counter + 1) ds"

text \<open>
  Lines 141-196: the destinations are sanitized; with none left \<open>RuntimeError\<close> is
  raised, and \<open>__exit__\<close> runs as the exception leaves \<open>run\<close>. Otherwise one call is
  submitted for each destination and the callback is added to every value of the
  dictionary.
\<close>

definition startup :: "config \<Rightarrow> obs \<Rightarrow> state \<Rightarrow> state" where
  "startup cfg ob s =
     (let (warnings, ds) = sanitize_destinations (o_isdir ob) (o_exists ob) (destinations cfg);
          s1 = s\<lparr>events := events s @ warnings\<rparr>
      in if ds = []
         then (exit_scope s1)
                \<lparr>pc := Raised (RuntimeError ''Need at least one destination to copy to.'')\<rparr>
         else
           (let s2 = s1\<lparr>events := events s1 @ Log (InfoSource (source cfg)) # folder_log 0 ds,
                        dests := ds,
                        max_workers := (if multithread cfg \<and> length ds \<ge> 2 then 2 else 1),
                        n_deleted := 0\<rparr>;
                s3 = update_changed (o_now ob) s2;
                s4 = submit_all ds (s3\<lparr>futures := []\<rparr>);
                s5 = foldl (\<lambda>s' future. add_done_callback future s') s4 (map snd (futures s4))
            in s5\<lparr>pc := LoopHead\<rparr>))"

text \<open>Lines 200-204.\<close>

definition loop_head :: "obs \<Rightarrow> state \<Rightarrow> state" where
  "loop_head ob s =
     (if \<not> is_running s then s\<lparr>pc := Shutdown\<rparr>
      else
        (let s1 = (if list_ex (\<lambda>future. is_running_job (f_state (pool s ! future)))
                        (map snd (futures s))
                   then update_changed (o_now ob) s else s)
         in s1\<lparr>pc := CheckExpired\<rparr>))"

text \<open>Lines 208-211.\<close>

definition check_expired :: "config \<Rightarrow> obs \<Rightarrow> state \<Rightarrow> state" where
  "check_expired cfg ob s =
     (let (lg, expired) = wait_has_expired ob (o_mul ob (wait_exit cfg) 60) s;
          s1 = s\<lparr>events := events s @ lg\<rparr>
      in if expired
         then s1\<lparr>events := events s1 @ [Log InfoStoppingAfterWait], pc := Shutdown\<rparr>
         else s1\<lparr>pc := ForDest 0\<rparr>)"

text \<open>
  Lines 217-228, the body of the loop over the destinations: the new state, or the
  exception that is raised and the state in which it is raised. \<open>self.futures[dest]\<close>
  raises \<open>KeyError\<close> for a key that is not there.
\<close>

definition poll_dest :: "obs \<Rightarrow> path \<Rightarrow> state \<Rightarrow> (py_exception \<times> state) + state" where
  "poll_dest ob dest s =
     (case o_subset ob of
        Raises e \<Rightarrow> Inl (e, s)
      | Returns is_subset \<Rightarrow>
          if \<not> is_subset then
            (let s1 = update_changed (o_now ob) s
             in case map_of (futures s1) dest of
                  None \<Rightarrow> Inl (KeyError dest, s1)
                | Some future \<Rightarrow>
                    if is_done (f_state (pool s1 ! future))
                    then
                      (let new = length (pool s1);
                           s2 = (submit dest s1)
                                  \<lparr>futures := AList.update dest new (futures s1)\<rparr>
                       in Inr (add_done_callback new s2))
                    else Inr s1)
          else Inr s)"

definition for_dest :: "obs \<Rightarrow> nat \<Rightarrow> state \<Rightarrow> state" where
  "for_dest ob i s =
     (if i < length (dests s) then
        (case poll_dest ob (dests s ! i) s of
           Inl (e, s1) \<Rightarrow> s1\<lparr>pc := Unwind e\<rparr>
         | Inr s1 \<Rightarrow> s1\<lparr>pc := ForDest (Suc i)\<rparr>)
      else s\<lparr>pc := Delete\<rparr>)"

text \<open>\<open>int(x)\<close> of a number: towards zero.\<close>

definition py_int :: "rat \<Rightarrow> int" where
  "py_int x = (if x \<ge> 0 then \<lfloor>x\<rfloor> else \<lceil>x\<rceil>)"

text \<open>Lines 235-241: the log, and the number of rounds; \<open>range(n)\<close> has \<open>nat n\<close> elements.\<close>

definition wait_step :: "config \<Rightarrow> obs \<Rightarrow> state \<Rightarrow> state" where
  "wait_step cfg ob s =
     s\<lparr>events := events s @ [Log InfoWaiting],
       pc := Sleep (nat (py_int (o_div ob (o_mul ob (time_interval cfg) 60)
                                    (update_rate_in_s s))))\<rparr>"

text \<open>Lines 231-232, and on to the wait.\<close>

definition delete_step :: "config \<Rightarrow> obs \<Rightarrow> state \<Rightarrow> state" where
  "delete_step cfg ob s =
     (if delete_source cfg then
        (case o_deleted ob of
           Raises e \<Rightarrow> s\<lparr>pc := Unwind e\<rparr>
         | Returns n \<Rightarrow> wait_step cfg ob (s\<lparr>n_deleted := n_deleted s + n\<rparr>))
      else wait_step cfg ob s)"

text \<open>Lines 240-244: one round of the sleep.\<close>

fun sleep_step :: "nat \<Rightarrow> state \<Rightarrow> state" where
  "sleep_step 0 s = s\<lparr>pc := LoopHead\<rparr>"
| "sleep_step (Suc k) s = (if \<not> is_running s then s\<lparr>pc := LoopHead\<rparr> else s\<lparr>pc := Sleep k\<rparr>)"

text \<open>
  Leaving the \<open>with ThreadPoolExecutor\<close> block waits until every submitted call is over
  or cancelled. Then lines 246-251: the report, \<open>notifier.finished()\<close>, and \<open>__exit__\<close>.
\<close>

definition shutdown_step :: "config \<Rightarrow> obs \<Rightarrow> state \<Rightarrow> state" where
  "shutdown_step cfg ob s =
     (if list_all (\<lambda>future. is_done (f_state future)) (pool s)
      then (exit_scope
              (s\<lparr>events := events s @ [Log InfoSummary]
                            @ report ob (source cfg) (dests s) (n_deleted s)
                            @ [NotifierFinished]\<rparr>))
             \<lparr>pc := Returned\<rparr>
      else s)"

text \<open>
  An exception leaves the \<open>with ThreadPoolExecutor\<close> block: the pool waits in the same
  way, then \<open>__exit__\<close> runs and the exception leaves \<open>run\<close>.
\<close>

definition unwind_step :: "py_exception \<Rightarrow> state \<Rightarrow> state" where
  "unwind_step e s =
     (if list_all (\<lambda>future. is_done (f_state future)) (pool s)
      then (exit_scope s)\<lparr>pc := Raised e\<rparr>
      else s)"

text \<open>The next step of the thread that called \<open>run\<close>.\<close>

definition ctl :: "config \<Rightarrow> obs \<Rightarrow> state \<Rightarrow> state" where
  "ctl cfg ob s =
     (case pc s of
        Idle \<Rightarrow> (enter s)\<lparr>pc := Entered\<rparr>
      | Entered \<Rightarrow> startup cfg ob s
      | LoopHead \<Rightarrow> loop_head ob s
      | CheckExpired \<Rightarrow> check_expired cfg ob s
      | ForDest i \<Rightarrow> for_dest ob i s
      | Delete \<Rightarrow> delete_step cfg ob s
      | Sleep k \<Rightarrow> sleep_step k s
      | Shutdown \<Rightarrow> shutdown_step cfg ob s
      | Unwind e \<Rightarrow> unwind_step e s
      | Returned \<Rightarrow> s
      | Raised e \<Rightarrow> s)"

text \<open>
  The other threads. A worker takes a pending call when fewer than \<open>max_workers\<close> are
  running. A running call ends: \<open>robocopy_call\<close> with the outcome of its subprocess
  decides what the future holds, and the callbacks of the future run.
\<close>

definition job_start :: "nat \<Rightarrow> state \<Rightarrow> state" where
  "job_start j s =
     (if j < length (pool s) \<and> f_state (pool s ! j) = PENDING
         \<and> length (filter (\<lambda>future. f_state future = RUNNING) (pool s)) < max_workers s
      then set_fstate j RUNNING s
      else s)"

definition job_finish ::
  "(nat \<Rightarrow> bool) \<Rightarrow> config \<Rightarrow> nat \<Rightarrow> (string list \<Rightarrow> bool \<Rightarrow> int \<times> bytes) \<Rightarrow> state \<Rightarrow> state" where
  "job_finish nd cfg j subprocess s =
     (if j < length (pool s) \<and> f_state (pool s ! j) = RUNNING then
        (case robocopy_call nd subprocess (source cfg) (f_dest (pool s ! j)) (silent cfg)
                (secure_mode cfg) (skip_files cfg) of
           (lg, Returns u) \<Rightarrow>
             invoke_callbacks j (set_fstate j (FINISHED None) (s\<lparr>events := events s @ lg\<rparr>))
         | (lg, Raises e) \<Rightarrow>
             invoke_callbacks j (set_fstate j (FINISHED (Some e)) (s\<lparr>events := events s @ lg\<rparr>)))
      else s)"

text \<open>
  What happens, one thing at a time: a step of the thread in \<open>run\<close>, a worker starting
  or ending a call, or some thread calling \<open>terminate\<close>.
\<close>

datatype action =
    Ctl obs
  | JobStart nat
  | JobFinish nat "string list \<Rightarrow> bool \<Rightarrow> int \<times> bytes"
  | Terminate

fun step :: "(nat \<Rightarrow> bool) \<Rightarrow> config \<Rightarrow> state \<Rightarrow> action \<Rightarrow> state" where
  "step nd cfg s (Ctl ob) = ctl cfg ob s"
| "step nd cfg s (JobStart j) = job_start j s"
| "step nd cfg s (JobFinish j subprocess) = job_finish nd cfg j subprocess s"
| "step nd cfg s Terminate = terminate s"

definition exec :: "(nat \<Rightarrow> bool) \<Rightarrow> config \<Rightarrow> action list \<Rightarrow> state \<Rightarrow> state" where
  "exec nd cfg acts s = foldl (step nd cfg) s acts"

section \<open>Notions of the claims about the task\<close>

text \<open>The thread is inside the \<open>with self\<close> block of \<open>run\<close>.\<close>

fun in_scope :: "pc \<Rightarrow> bool" where
  "in_scope Idle = False"
| "in_scope Returned = False"
| "in_scope (Raised e) = False"
| "in_scope location = True"

text \<open>The submitted calls: destination and state of every future of the pool.\<close>

definition jobs :: "state \<Rightarrow> (path \<times> fstate) list" where
  "jobs s = map (\<lambda>future. (f_dest future, f_state future)) (pool s)"

text \<open>The number of calls for a destination that are in flight: submitted and not over.\<close>

definition in_flight :: "state \<Rightarrow> path \<Rightarrow> nat" where
  "in_flight s dest = length (filter (\<lambda>(d, st). d = dest \<and> \<not> is_done st) (jobs s))"

text \<open>The error of line 148.\<close>

definition no_destination_error :: py_exception where
  "no_destination_error = RuntimeError ''Need at least one destination to copy to.''"

text \<open>
  What holds of a task at every moment: no call is submitted before the start; when
  \<open>run\<close> has raised, the task is not running and every submitted call is over; in the
  loop every destination is a key of \<open>futures\<close>; \<open>notifier.finished\<close> has not been
  called before \<open>run\<close> returns; and when \<open>run\<close> has returned every submitted call is over
  and the events end with the summary, the report and the call of \<open>notifier.finished\<close>.
\<close>

definition task_inv :: "config \<Rightarrow> state \<Rightarrow> bool" where
  "task_inv cfg s =
     ((pc s = Idle \<or> pc s = Entered \<longrightarrow> pool s = [] \<and> futures s = [])
      \<and> (\<forall>e. pc s = Raised e \<longrightarrow>
             \<not> running s \<and> list_all (\<lambda>future. is_done (f_state future)) (pool s))
      \<and> (in_scope (pc s) \<and> pc s \<noteq> Entered \<longrightarrow> set (dests s) \<subseteq> fst ` set (futures s))
      \<and> (pc s \<noteq> Returned \<longrightarrow> NotifierFinished \<notin> set (events s))
      \<and> (pc s = Returned \<longrightarrow>
            \<not> running s \<and> list_all (\<lambda>future. is_done (f_state future)) (pool s)
            \<and> (\<exists>pre ob.
                  events s = pre @ Log InfoSummary
                               # report ob (source cfg) (dests s) (n_deleted s)
                               @ [NotifierFinished]
                  \<and> NotifierFinished \<notin> set pre)))"

text \<open>
  Every call that is not over is the one that \<open>futures\<close> holds for its destination.
\<close>

definition one_handle :: "state \<Rightarrow> bool" where
  "one_handle s =
     (\<forall>j < length (pool s).
        is_done (f_state (pool s ! j))
        \<or> map_of (futures s) (f_dest (pool s ! j)) = Some j)"

section \<open>Example arguments and readings\<close>

text \<open>
  Calls of \<open>run\<close>: with the single destination \<open>d\<close>; with the destination \<open>d\<close> given
  twice and two workers; with the destinations \<open>a\<close>, \<open>b\<close> and \<open>b\<close> again and one worker;
  with no destination.
\<close>

definition one_destination :: config where
  "one_destination =
     \<lparr>source = ''s'', destinations = Single ''d'', multithread = False, time_interval = 1,
      wait_exit = 1, delete_source = False, skip_files = ''tmp'', silent = 0,
      secure_mode = 0\<rparr>"

definition same_destination_twice :: config where
  "same_destination_twice =
     \<lparr>source = ''s'', destinations = Many [''d'', ''d''], multithread = True,
      time_interval = 1, wait_exit = 1, delete_source = False, skip_files = ''tmp'',
      silent = 0, secure_mode = 0\<rparr>"

definition repeated_destination :: config where
  "repeated_destination =
     \<lparr>source = ''s'', destinations = Many [''a'', ''b'', ''b''], multithread = False,
      time_interval = 1, wait_exit = 1, delete_source = False, skip_files = ''tmp'',
      silent = 0, secure_mode = 0\<rparr>"

definition no_destination :: config where
  "no_destination =
     \<lparr>source = ''s'', destinations = Many [], multithread = False, time_interval = 1,
      wait_exit = 1, delete_source = False, skip_files = ''tmp'', silent = 0,
      secure_mode = 0\<rparr>"

text \<open>
  An outside world in which every path exists, no destination differs from the source,
  nothing is deleted and the clock stands at 0. The arithmetic is the exact one, which
  on the numbers of the examples is that of the floats.
\<close>

definition quiet :: obs where
  "quiet =
     \<lparr>o_isdir = (\<lambda>p. True), o_exists = (\<lambda>p. True), o_now = 0,
      o_total_seconds = (\<lambda>d. of_int d / 1000000), o_mul = (\<lambda>x y. x * y),
      o_div = (\<lambda>x y. x / y), o_subset = Returns True, o_deleted = Returns 0,
      o_count_files = (\<lambda>p. Some 0), o_count_identical = (\<lambda>p. Some 0)\<rparr>"

text \<open>
  The same world an hour later; with a destination that differs from the source; and
  with a file tree that the comparison cannot read.
\<close>

definition an_hour_later :: obs where
  "an_hour_later = quiet\<lparr>o_now := 3600000000\<rparr>"

definition drifted :: obs where
  "drifted = quiet\<lparr>o_subset := Returns False\<rparr>"

definition unreadable :: obs where
  "unreadable = quiet\<lparr>o_subset := Raises (OSError ''Permission denied'')\<rparr>"

section \<open>Sanitizing the destinations\<close>

lemma keep_existing_filter: "keep_existing ex ds = filter (\<lambda>dest. dest \<noteq> [] \<and> ex dest) ds"
  by (induction ds) auto

text \<open>
  Claim C9. \<open>_sanitize_destinations\<close> returns the entries of the given sequence that are
  not the empty string and that exist, each as often as it is given and in the given
  order; an argument that is no list is treated as the list of that one entry.
\<close>

theorem sanitize_destinations_exact:
  "snd (sanitize_destinations isdir ex (Many ds)) = filter (\<lambda>dest. dest \<noteq> [] \<and> ex dest) ds
   \<and> sanitize_destinations isdir ex (Single d) = sanitize_destinations isdir ex (Many [d])"
  by (simp add: sanitize_destinations_def keep_existing_filter)

theorem sanitize_destinations_exact_witness:
  "snd (sanitize_destinations (\<lambda>p. True) (\<lambda>p. p \<noteq> ''gone'')
          (Many [''a'', '''', ''gone'', ''b'', ''a'']))
     = [''a'', ''b'', ''a'']
   \<and> sanitize_destinations (\<lambda>p. True) (\<lambda>p. p \<noteq> ''gone'') (Single ''a'')
     = sanitize_destinations (\<lambda>p. True) (\<lambda>p. p \<noteq> ''gone'') (Many [''a''])"
  using sanitize_destinations_exact
    [of "\<lambda>p. True" "\<lambda>p. p \<noteq> ''gone''" "[''a'', '''', ''gone'', ''b'', ''a'']" "''a''"]
  by simp

section \<open>The callback of a job\<close>

text \<open>
  Claim C10. For a cancelled future the callback only logs. It calls \<open>notifier.failed\<close>
  with an error exactly for a future that finished with that error, and a future that
  finished without one makes it call nothing of the notifier; \<open>notifier.finished\<close> is
  never called by the callback.
\<close>

theorem robocopy_callback_failed:
  "robocopy_callback CANCELLED = [Log DebugJobCancelled]
   \<and> (NotifierFailed e \<in> set (robocopy_callback st)) = (st = FINISHED (Some e))
   \<and> robocopy_callback (FINISHED None) = [Log DebugJobOk]
   \<and> NotifierFinished \<notin> set (robocopy_callback st)"
  by (cases st) (auto simp: robocopy_callback_def split: option.splits)

theorem robocopy_callback_failed_witness:
  "robocopy_callback CANCELLED = [Log DebugJobCancelled]
   \<and> NotifierFailed (RobocopyError 8 None)
       \<in> set (robocopy_callback (FINISHED (Some (RobocopyError 8 None))))
   \<and> robocopy_callback (FINISHED None) = [Log DebugJobOk]
   \<and> NotifierFinished \<notin> set (robocopy_callback (FINISHED (Some (RobocopyError 8 None))))"
  using robocopy_callback_failed
    [of "RobocopyError 8 None" "FINISHED (Some (RobocopyError 8 None))"]
  by simp

section \<open>\<open>terminate\<close>\<close>

lemma cancel_frame [simp]:
  "futures (cancel j s) = futures s" "running (cancel j s) = running s"
  "length (pool (cancel j s)) = length (pool s)"
  by (simp_all add: cancel_def invoke_callbacks_def set_fstate_def)

lemma cancel_fstate:
  "i < length (pool s) \<Longrightarrow> f_state (pool (cancel j s) ! i) =
     (if i = j \<and> f_state (pool s ! j) = PENDING then CANCELLED else f_state (pool s ! i))"
  by (auto simp: cancel_def invoke_callbacks_def set_fstate_def nth_list_update)

lemma cancel_id: "\<not> (j < length (pool s) \<and> f_state (pool s ! j) = PENDING) \<Longrightarrow> cancel j s = s"
  by (auto simp: cancel_def)

lemma cancel_all_frame [simp]:
  "futures (foldl (\<lambda>s' future. cancel future s') s hs) = futures s"
  "running (foldl (\<lambda>s' future. cancel future s') s hs) = running s"
  "length (pool (foldl (\<lambda>s' future. cancel future s') s hs)) = length (pool s)"
  by (induction hs arbitrary: s) simp_all

lemma cancel_all_fstate:
  "i < length (pool s) \<Longrightarrow> f_state (pool (foldl (\<lambda>s' future. cancel future s') s hs) ! i) =
     (if i \<in> set hs \<and> f_state (pool s ! i) = PENDING then CANCELLED else f_state (pool s ! i))"
proof (induction hs arbitrary: s)
  case Nil
  then show ?case by simp
next
  case (Cons h hs)
  then show ?case by (auto simp: cancel_fstate)
qed

lemma cancel_all_id:
  "\<forall>h\<in>set hs. \<not> (h < length (pool s) \<and> f_state (pool s ! h) = PENDING) \<Longrightarrow>
   foldl (\<lambda>s' future. cancel future s') s hs = s"
  by (induction hs arbitrary: s) (simp_all add: cancel_id)

lemma terminate_frame [simp]:
  "futures (terminate s) = futures s" "running (terminate s) = False"
  "length (pool (terminate s)) = length (pool s)"
  by (simp_all add: terminate_def Let_def)

lemma terminate_fstate:
  "i < length (pool s) \<Longrightarrow> f_state (pool (terminate s) ! i) =
     (if i \<in> snd ` set (futures s) \<and> f_state (pool s ! i) = PENDING then CANCELLED
      else f_state (pool s ! i))"
  by (simp add: terminate_def Let_def cancel_all_fstate is_running_def)

lemma terminate_not_running:
  "\<not> running s \<Longrightarrow>
   \<forall>h\<in>snd ` set (futures s). \<not> (h < length (pool s) \<and> f_state (pool s ! h) = PENDING) \<Longrightarrow>
   terminate s = s"
  using cancel_all_id [of "map snd (futures s)" s]
  by (simp add: terminate_def is_running_def)

section \<open>The parser of the error blocks\<close>

declare findall.simps [simp del]

lemma rx_matches_groups:
  "(caps, pv', r') \<in> set (rx_matches nd p pv r) \<Longrightarrow> length caps = ngroups p"
proof (induction nd p pv r arbitrary: caps pv' r' rule: rx_matches.induct)
  case (1 nd pv r)
  then show ?case by (simp add: ngroups_def)
next
  case (2 nd l p pv r)
  then show ?case by (auto simp: ngroups_def split: if_splits)
next
  case (3 nd m c p pv r)
  then show ?case by (auto simp: ngroups_def)
next
  case (4 nd m c p pv r)
  from 4(2) obtain k caps0 where k: "k \<in> set [m..<Suc (length (takeWhile (in_cls nd c) r))]"
      and mem: "(caps0, pv', r') \<in> set (rx_matches nd p (prev_after pv r k) (drop k r))"
      and c: "caps = take k r # caps0"
    by auto
  from 4(1) [of k, OF _ mem] k c show ?case by (simp add: ngroups_def)
next
  case (5 nd p pv r)
  then show ?case by (auto simp: ngroups_def split: if_splits)
next
  case (6 nd p pv r)
  then show ?case by (auto simp: ngroups_def split: if_splits)
qed

lemma rx_matches_length:
  "(caps, pv', r') \<in> set (rx_matches nd p pv r) \<Longrightarrow> length r' + min_len p \<le> length r"
proof (induction nd p pv r arbitrary: caps pv' r' rule: rx_matches.induct)
  case (1 nd pv r)
  then show ?case by simp
next
  case (2 nd l p pv r)
  then show ?case by (fastforce simp: prefix_def split: if_splits)
next
  case (3 nd m c p pv r)
  from 3(2) obtain k where k: "k \<in> set [m..<Suc (length (takeWhile (in_cls nd c) r))]"
      and mem: "(caps, pv', r') \<in> set (rx_matches nd p (prev_after pv r k) (drop k r))"
    by auto
  have "k \<le> length r" using k length_takeWhile_le [of "in_cls nd c" r] by auto
  with 3(1) [of k, OF _ mem] k show ?case by auto
next
  case (4 nd m c p pv r)
  from 4(2) obtain k caps0 where k: "k \<in> set [m..<Suc (length (takeWhile (in_cls nd c) r))]"
      and mem: "(caps0, pv', r') \<in> set (rx_matches nd p (prev_after pv r k) (drop k r))"
    by auto
  have "k \<le> length r" using k length_takeWhile_le [of "in_cls nd c" r] by auto
  with 4(1) [of k, OF _ mem] k show ?case by auto
next
  case (5 nd p pv r)
  then show ?case by (auto split: if_splits)
next
  case (6 nd p pv r)
  then show ?case by (auto split: if_splits)
qed

lemma rx_first_mem: "rx_first nd p pv r = Some x \<Longrightarrow> x \<in> set (rx_matches nd p pv r)"
  by (auto simp: rx_first_def split: list.splits)

lemma findall_groups: "m \<in> set (findall nd p pv r) \<Longrightarrow> length m = ngroups p"
proof (induction nd p pv r rule: findall.induct)
  case (1 nd p pv r)
  show ?case
  proof (cases "rx_first nd p pv r")
    case None
    with 1 show ?thesis
      by (subst (asm) (3) findall.simps) (auto split: list.splits)
  next
    case (Some x)
    obtain caps pv' r' where x: "x = (caps, pv', r')" by (cases x)
    have g: "length caps = ngroups p"
      using rx_first_mem [OF Some] rx_matches_groups x by blast
    from 1(4) Some x have "m = caps \<or> (length r' < length r \<and> m \<in> set (findall nd p pv' r'))
        \<or> (\<not> length r' < length r \<and> (\<exists>y ys. r = y # ys \<and> m \<in> set (findall nd p (Some y) ys)))"
      by (subst (asm) findall.simps) (auto split: list.splits if_splits)
    with 1(1-3) Some x g show ?thesis by auto
  qed
qed

lemma ngroups_error_pattern: "ngroups error_pattern = 3"
  by (simp add: ngroups_def error_pattern_def)

lemma min_len_error_pattern: "min_len error_pattern = 15"
  by (simp add: error_pattern_def cps_def)

lemma error_info_of_three: "length m = 3 \<Longrightarrow> error_info_of m \<noteq> None"
  by (cases m rule: error_info_of.cases) simp_all

lemma all_some_infos: "\<forall>m\<in>set ms. length m = 3 \<Longrightarrow> all_some (map error_info_of ms) \<noteq> None"
proof (induction ms)
  case Nil
  then show ?case by simp
next
  case (Cons m ms)
  then obtain i where "error_info_of m = Some i" using error_info_of_three [of m] by auto
  with Cons show ?case by auto
qed

lemma parse_decoded:
  assumes "decode output = Some text"
  shows "\<exists>lg info. parse_errors_from_robocopy_stdout nd output = (lg, Returns info)"
proof -
  have "\<forall>m\<in>set (findall nd error_pattern None text). length m = 3"
    using findall_groups [of _ nd error_pattern None "text"] ngroups_error_pattern by simp
  then have "all_some (map error_info_of (findall nd error_pattern None text)) \<noteq> None"
    by (rule all_some_infos)
  with assms show ?thesis
    by (auto simp: parse_errors_from_robocopy_stdout_def Let_def)
qed

lemma prev_after_0 [simp]: "prev_after pv r 0 = pv"
  by (simp add: prev_after_def)

lemma prev_after_Cons [simp]: "prev_after pv (x # l) (Suc j) = prev_after (Some x) l j"
  by (cases j) (simp_all add: prev_after_def)

lemma findall_no_match_here:
  "rx_first nd p pv (x # xs) = None \<Longrightarrow> findall nd p pv (x # xs) = findall nd p (Some x) xs"
  by (subst findall.simps) simp

lemma findall_match_here:
  "rx_first nd p pv r = Some (caps, pv', r') \<Longrightarrow> length r' < length r \<Longrightarrow>
   findall nd p pv r = caps # findall nd p pv' r'"
  by (subst findall.simps) simp

lemma findall_skip:
  "\<forall>j < length u. rx_first nd p (prev_after pv (u @ r) j) (drop j (u @ r)) = None \<Longrightarrow>
   findall nd p pv (u @ r) = findall nd p (prev_after pv (u @ r) (length u)) r"
proof (induction u arbitrary: pv)
  case Nil
  then show ?case by simp
next
  case (Cons x u)
  from Cons.prems have "rx_first nd p pv (x # u @ r) = None" by force
  then have "findall nd p pv ((x # u) @ r) = findall nd p (Some x) (u @ r)"
    by (simp add: findall_no_match_here)
  moreover have
    "\<forall>j < length u. rx_first nd p (prev_after (Some x) (u @ r) j) (drop j (u @ r)) = None"
  proof (intro allI impI)
    fix j assume "j < length u"
    then have "Suc j < length (x # u)" by simp
    with Cons.prems have
      "rx_first nd p (prev_after pv ((x # u) @ r) (Suc j)) (drop (Suc j) ((x # u) @ r)) = None"
      by blast
    then show "rx_first nd p (prev_after (Some x) (u @ r) j) (drop j (u @ r)) = None" by simp
  qed
  ultimately show ?case using Cons.IH [of "Some x"] by simp
qed

lemma findall_none:
  assumes "\<forall>j \<le> length r. rx_first nd p (prev_after pv r j) (drop j r) = None"
  shows "findall nd p pv r = []"
proof -
  have "findall nd p pv (r @ []) = findall nd p (prev_after pv (r @ []) (length r)) []"
    by (rule findall_skip) (use assms in simp)
  moreover have "rx_first nd p (prev_after pv r (length r)) [] = None"
    using assms by force
  then have "findall nd p (prev_after pv r (length r)) [] = []"
    by (subst findall.simps) simp
  ultimately show ?thesis by simp
qed

text \<open>
  Claim C2, amended. When the output decodes as UTF-8 and the pattern matches at no
  position of the text, \<open>parse_errors_from_robocopy_stdout\<close> raises nothing, logs that
  it could not parse anything together with the raw text, and returns \<open>None\<close>: it
  returns no list at all, not the empty list.
\<close>

theorem parse_errors_no_match:
  assumes "decode output = Some text"
    and "\<forall>i \<le> length text.
           rx_first nd error_pattern (prev_after None text i) (drop i text) = None"
  shows "parse_errors_from_robocopy_stdout nd output
         = ([Log DebugCouldNotParse, Log (DebugRawStdout text)], Returns None)"
  using assms findall_none [of "text" nd error_pattern None]
  by (simp add: parse_errors_from_robocopy_stdout_def)

lemma no_error_word_no_match:
  "\<not> prefix (cps ''ERROR'') r \<Longrightarrow> rx_first nd error_pattern pv r = None"
  by (simp add: error_pattern_def rx_first_def)

theorem parse_errors_no_match_witness:
  "decode ''1 file'' = Some [49, 32, 102, 105, 108, 101]
   \<and> parse_errors_from_robocopy_stdout (\<lambda>c. False) ''1 file''
      = ([Log DebugCouldNotParse, Log (DebugRawStdout [49, 32, 102, 105, 108, 101])],
         Returns None)"
proof -
  have d: "decode ''1 file'' = Some [49, 32, 102, 105, 108, 101]"
    by (simp add: decode_def)
  have "\<forall>i \<le> length [49, 32, 102, 105, 108, 101 :: nat].
      rx_first (\<lambda>c. False) error_pattern (prev_after None [49, 32, 102, 105, 108, 101] i)
        (drop i [49, 32, 102, 105, 108, 101]) = None"
    by (intro allI impI no_error_word_no_match) (auto simp: cps_def le_Suc_eq numeral_eq_Suc)
  from parse_errors_no_match [OF d this] d show ?thesis by simp
qed

text \<open>
  On the empty output, which holds no block, the parser does not return the empty
  list of records: it returns \<open>None\<close>.
\<close>

theorem parse_errors_empty_list_counterexample:
  "parse_errors_from_robocopy_stdout (\<lambda>c. False) [] \<noteq> ([], Returns (Some []))
   \<and> snd (parse_errors_from_robocopy_stdout (\<lambda>c. False) []) = Returns None"
  by (simp add: parse_errors_from_robocopy_stdout_def decode_def findall.simps
      error_pattern_def cps_def rx_first_def)

subsection \<open>A match of the pattern on a well-formed block\<close>

lemma takeWhile_run:
  "list_all P w \<Longrightarrow> r = [] \<or> \<not> P (hd r) \<Longrightarrow> takeWhile P (w @ r) = w"
proof (induction w)
  case Nil
  then show ?case by (cases r) auto
next
  case (Cons x w)
  then show ?case by simp
qed

lemma rx_first_Nil: "rx_first nd [] pv r = Some ([], pv, r)"
  by (simp add: rx_first_def)

lemma rx_first_Lit:
  "rx_first nd (Lit l # p) pv (l @ r) = rx_first nd p (prev_after pv (l @ r) (length l)) r"
  by (simp add: rx_first_def)

lemma rx_first_Bol:
  "pv = None \<or> pv = Some 0x0A \<Longrightarrow> rx_first nd (Bol # p) pv r = rx_first nd p pv r"
  by (auto simp: rx_first_def)

lemma rx_first_Eol:
  "r = [] \<or> hd r = 0x0A \<Longrightarrow> rx_first nd (Eol # p) pv r = rx_first nd p pv r"
  by (auto simp: rx_first_def)

lemma rev_upt_Suc: "m \<le> n \<Longrightarrow> rev [m..<Suc n] = n # rev [m..<n]"
  by simp

lemma rx_first_Rep:
  assumes "list_all (in_cls nd c) w" and "r = [] \<or> \<not> in_cls nd c (hd r)" and "m \<le> length w"
    and "rx_first nd p (prev_after pv (w @ r) (length w)) r = Some x"
  shows "rx_first nd (Rep m c # p) pv (w @ r) = Some x"
proof -
  have tw: "takeWhile (in_cls nd c) (w @ r) = w"
    using assms(1,2) by (rule takeWhile_run)
  from assms(4) obtain xs where "rx_matches nd p (prev_after pv (w @ r) (length w)) r = x # xs"
    by (auto simp: rx_first_def split: list.splits)
  then show ?thesis
    using assms(3) by (simp add: rx_first_def tw rev_upt_Suc del: upt_Suc)
qed

lemma rx_first_Cap:
  assumes "list_all (in_cls nd c) w" and "r = [] \<or> \<not> in_cls nd c (hd r)" and "m \<le> length w"
    and "rx_first nd p (prev_after pv (w @ r) (length w)) r = Some (caps, pv', r')"
  shows "rx_first nd (Cap m c # p) pv (w @ r) = Some (w # caps, pv', r')"
proof -
  have tw: "takeWhile (in_cls nd c) (w @ r) = w"
    using assms(1,2) by (rule takeWhile_run)
  from assms(4) obtain xs where
    "rx_matches nd p (prev_after pv (w @ r) (length w)) r = (caps, pv', r') # xs"
    by (auto simp: rx_first_def split: list.splits)
  then show ?thesis
    using assms(3) by (simp add: rx_first_def tw rev_upt_Suc del: upt_Suc)
qed

lemma space_not_ascii_digit: "is_space c \<Longrightarrow> \<not> is_ascii_digit c"
  by (auto simp: is_space_def is_ascii_digit_def)

lemma block_match:
  assumes tbl: "\<forall>c. nd c \<longrightarrow> \<not> is_space c"
    and wf: "well_formed_block nd w1 c w2 h w3 a rsn"
    and t: "t = [] \<or> hd t = 0x0A"
  shows "rx_first nd error_pattern pv (error_block w1 c w2 h w3 a rsn @ t)
         = Some ([c, a, rsn], prev_after (Some 0x0A) (rsn @ t) (length rsn), t)"
proof -
  from wf have w1: "list_all (in_cls nd Space) w1" "w1 \<noteq> []"
    and c: "list_all (in_cls nd Digit) c" "c \<noteq> []"
    and w2: "list_all (in_cls nd Space) w2" "w2 \<noteq> []"
    and h: "list_all (in_cls nd HexDigit) h" "h \<noteq> []"
    and w3: "list_all (in_cls nd Space) w3" "w3 \<noteq> []"
    and a: "list_all (in_cls nd AnyButNewline) a" "a \<noteq> []" "\<not> is_space (hd a)"
    and rsn: "list_all (in_cls nd AnyButNewline) rsn"
    by (auto simp: well_formed_block_def list_all_iff)
  let ?res = "\<lambda>caps. Some (caps :: str list, prev_after (Some 0x0A) (rsn @ t) (length rsn), t)"
  have s12: "rx_first nd [Cap 0 AnyButNewline, Eol] pv0 (rsn @ t)
      = Some ([rsn], prev_after pv0 (rsn @ t) (length rsn), t)" for pv0
    by (rule rx_first_Cap [OF rsn]) (use t in \<open>auto simp: rx_first_Eol rx_first_Nil\<close>)
  have s10: "rx_first nd [Lit [0x0A], Bol, Cap 0 AnyButNewline, Eol] pv0 ([0x0A] @ rsn @ t)
      = ?res [rsn]" for pv0
    by (subst rx_first_Lit) (simp add: rx_first_Bol s12 prev_after_def)
  have s9: "rx_first nd [Cap 0 AnyButNewline, Lit [0x0A], Bol, Cap 0 AnyButNewline, Eol] pv0
        (a @ [0x0A] @ rsn @ t) = ?res [a, rsn]" for pv0
    by (rule rx_first_Cap [OF a(1) _ _ s10]) simp_all
  have s8: "rx_first nd
        [Rep 1 Space, Cap 0 AnyButNewline, Lit [0x0A], Bol, Cap 0 AnyButNewline, Eol] pv0
        (w3 @ a @ [0x0A] @ rsn @ t) = ?res [a, rsn]" for pv0
    by (rule rx_first_Rep [OF w3(1) _ _ s9]) (use w3(2) a in \<open>auto simp: Suc_le_eq\<close>)
  have s7: "rx_first nd
        [Lit (cps '')''), Rep 1 Space, Cap 0 AnyButNewline, Lit [0x0A], Bol,
         Cap 0 AnyButNewline, Eol] pv0
        (cps '')'' @ w3 @ a @ [0x0A] @ rsn @ t) = ?res [a, rsn]" for pv0
    by (subst rx_first_Lit) (rule s8)
  have s6: "rx_first nd
        [Rep 1 HexDigit, Lit (cps '')''), Rep 1 Space, Cap 0 AnyButNewline, Lit [0x0A], Bol,
         Cap 0 AnyButNewline, Eol] pv0
        (h @ cps '')'' @ w3 @ a @ [0x0A] @ rsn @ t) = ?res [a, rsn]" for pv0
    by (rule rx_first_Rep [OF h(1) _ _ s7])
      (use h(2) in \<open>auto simp: Suc_le_eq cps_def is_hex_digit_def is_ascii_digit_def\<close>)
  have s5: "rx_first nd
        [Lit (cps ''(0x''), Rep 1 HexDigit, Lit (cps '')''), Rep 1 Space, Cap 0 AnyButNewline,
         Lit [0x0A], Bol, Cap 0 AnyButNewline, Eol] pv0
        (cps ''(0x'' @ h @ cps '')'' @ w3 @ a @ [0x0A] @ rsn @ t) = ?res [a, rsn]" for pv0
    by (subst rx_first_Lit) (rule s6)
  have s4: "rx_first nd
        [Rep 1 Space, Lit (cps ''(0x''), Rep 1 HexDigit, Lit (cps '')''), Rep 1 Space,
         Cap 0 AnyButNewline, Lit [0x0A], Bol, Cap 0 AnyButNewline, Eol] pv0
        (w2 @ cps ''(0x'' @ h @ cps '')'' @ w3 @ a @ [0x0A] @ rsn @ t) = ?res [a, rsn]" for pv0
    by (rule rx_first_Rep [OF w2(1) _ _ s5])
      (use w2(2) in \<open>auto simp: Suc_le_eq cps_def is_space_def\<close>)
  have nsp: "\<not> in_cls nd Digit (hd w2)"
    using w2 tbl by (cases w2) (auto simp: space_not_ascii_digit)
  have s3: "rx_first nd
        [Cap 1 Digit, Rep 1 Space, Lit (cps ''(0x''), Rep 1 HexDigit, Lit (cps '')''),
         Rep 1 Space, Cap 0 AnyButNewline, Lit [0x0A], Bol, Cap 0 AnyButNewline, Eol] pv0
        (c @ w2 @ cps ''(0x'' @ h @ cps '')'' @ w3 @ a @ [0x0A] @ rsn @ t)
      = ?res [c, a, rsn]" for pv0
    by (rule rx_first_Cap [OF c(1) _ _ s4]) (use c(2) w2(2) nsp in \<open>auto simp: Suc_le_eq\<close>)
  have nd1: "\<not> in_cls nd Space (hd c)"
    using c tbl by (cases c) (auto simp: space_not_ascii_digit)
  have s2: "rx_first nd
        [Rep 1 Space, Cap 1 Digit, Rep 1 Space, Lit (cps ''(0x''), Rep 1 HexDigit,
         Lit (cps '')''), Rep 1 Space, Cap 0 AnyButNewline, Lit [0x0A], Bol,
         Cap 0 AnyButNewline, Eol] pv0
        (w1 @ c @ w2 @ cps ''(0x'' @ h @ cps '')'' @ w3 @ a @ [0x0A] @ rsn @ t)
      = ?res [c, a, rsn]" for pv0
    by (rule rx_first_Rep [OF w1(1) _ _ s3]) (use w1(2) c(2) nd1 in \<open>auto simp: Suc_le_eq\<close>)
  show ?thesis
    unfolding error_pattern_def error_block_def append_assoc
    by (subst rx_first_Lit) (rule s2)
qed

lemma prev_after_drop:
  "i + j \<le> length r \<Longrightarrow> prev_after (prev_after pv r i) (drop i r) j = prev_after pv r (i + j)"
  by (cases j) (simp_all add: prev_after_def)

lemma findall_skip_positions:
  assumes "i \<le> k" and "k \<le> length r"
    and "\<forall>j. i \<le> j \<and> j < k \<longrightarrow> rx_first nd p (prev_after pv r j) (drop j r) = None"
  shows "findall nd p (prev_after pv r i) (drop i r)
         = findall nd p (prev_after pv r k) (drop k r)"
proof -
  let ?u = "take (k - i) (drop i r)"
  let ?pv = "prev_after pv r i"
  have u: "?u @ drop k r = drop i r"
    using assms(1) by (metis add_diff_inverse_nat append_take_drop_id drop_drop leD add.commute)
  have l: "length ?u = k - i" using assms(1,2) by simp
  have "\<forall>j < length ?u. rx_first nd p (prev_after ?pv (?u @ drop k r) j)
            (drop j (?u @ drop k r)) = None"
  proof (intro allI impI)
    fix j assume "j < length ?u"
    with l have j: "i + j < k" by simp
    with assms(2) have "prev_after ?pv (drop i r) j = prev_after pv r (i + j)"
      by (intro prev_after_drop) simp
    moreover have "drop j (drop i r) = drop (i + j) r" by (simp add: add.commute)
    moreover from assms(3) j
    have "rx_first nd p (prev_after pv r (i + j)) (drop (i + j) r) = None" by simp
    ultimately show "rx_first nd p (prev_after ?pv (?u @ drop k r) j)
        (drop j (?u @ drop k r)) = None"
      unfolding u by simp
  qed
  then have "findall nd p ?pv (?u @ drop k r)
      = findall nd p (prev_after ?pv (?u @ drop k r) (length ?u)) (drop k r)"
    by (rule findall_skip)
  moreover have "prev_after ?pv (drop i r) (k - i) = prev_after pv r k"
    using prev_after_drop [of i "k - i" r pv] assms(1,2) by simp
  ultimately show ?thesis unfolding u l by simp
qed

lemma findall_none_positions:
  assumes "i \<le> length r"
    and "\<forall>j. i \<le> j \<and> j \<le> length r \<longrightarrow> rx_first nd p (prev_after pv r j) (drop j r) = None"
  shows "findall nd p (prev_after pv r i) (drop i r) = []"
proof (rule findall_none, intro allI impI)
  fix j assume "j \<le> length (drop i r)"
  with assms(1) have j: "i + j \<le> length r" by simp
  then have "prev_after (prev_after pv r i) (drop i r) j = prev_after pv r (i + j)"
    by (rule prev_after_drop)
  moreover have "drop j (drop i r) = drop (i + j) r" by (simp add: add.commute)
  moreover from assms(2) j
  have "rx_first nd p (prev_after pv r (i + j)) (drop (i + j) r) = None" by simp
  ultimately show "rx_first nd p (prev_after (prev_after pv r i) (drop i r) j)
      (drop j (drop i r)) = None"
    by simp
qed

lemma length_error_block: "0 < length (error_block w1 c w2 h w3 a rsn)"
  by (simp add: error_block_def cps_def)

lemma last_error_block:
  "prev_after (Some 0x0A) (rsn @ t) (length rsn)
   = Some (last (error_block w1 c w2 h w3 a rsn))"
  by (cases rsn rule: rev_cases) (simp_all add: prev_after_def error_block_def nth_append)

lemma findall_block_position:
  assumes tbl: "\<forall>c. nd c \<longrightarrow> \<not> is_space c"
    and wf: "well_formed_block nd w1 c w2 h w3 a rsn"
    and t: "t = [] \<or> hd t = 0x0A"
    and r: "r = u @ error_block w1 c w2 h w3 a rsn @ t"
  shows "findall nd error_pattern (prev_after pv r (length u)) (drop (length u) r)
         = [c, a, rsn]
           # findall nd error_pattern
               (prev_after pv r (length (u @ error_block w1 c w2 h w3 a rsn)))
               (drop (length (u @ error_block w1 c w2 h w3 a rsn)) r)"
proof -
  let ?b = "error_block w1 c w2 h w3 a rsn"
  let ?k = "length (u @ ?b)"
  have k: "0 < length ?b" by (rule length_error_block)
  then have "(u @ ?b) ! (?k - 1) = last ?b"
    by (metis append_is_Nil_conv last_appendR last_conv_nth length_greater_0_conv)
  moreover have "r ! (?k - 1) = (u @ ?b) ! (?k - 1)"
    unfolding r using k by (metis append_assoc diff_less length_append nth_append
        add_gr_0 zero_less_one)
  ultimately have "prev_after pv r ?k = Some (last ?b)"
    using k by (simp add: prev_after_def)
  then have pv': "prev_after (Some 0x0A) (rsn @ t) (length rsn) = prev_after pv r ?k"
    using last_error_block [of rsn t w1 c w2 h w3 a] by simp
  have d: "drop (length u) r = ?b @ t" "drop ?k r = t"
    unfolding r by simp_all
  have "findall nd error_pattern (prev_after pv r (length u)) (?b @ t)
      = [c, a, rsn] # findall nd error_pattern (prev_after (Some 0x0A) (rsn @ t) (length rsn)) t"
    by (rule findall_match_here [OF block_match [OF tbl wf t]]) (use k in simp)
  then show ?thesis unfolding d pv' .
qed

lemma findall_two_blocks_positions:
  assumes tbl: "\<forall>c. nd c \<longrightarrow> \<not> is_space c"
    and r: "r = pre @ error_block w1 c1 w2 h1 w3 a1 r1 @ mid
                @ error_block v1 c2 v2 h2 v3 a2 r2 @ post"
    and wf1: "well_formed_block nd w1 c1 w2 h1 w3 a1 r1"
    and wf2: "well_formed_block nd v1 c2 v2 h2 v3 a2 r2"
    and mid: "mid \<noteq> []" "hd mid = 0x0A"
    and post: "post = [] \<or> hd post = 0x0A"
    and out: "\<forall>j \<le> length r.
        j < length pre
        \<or> (length (pre @ error_block w1 c1 w2 h1 w3 a1 r1) \<le> j
            \<and> j < length (pre @ error_block w1 c1 w2 h1 w3 a1 r1 @ mid))
        \<or> length (pre @ error_block w1 c1 w2 h1 w3 a1 r1 @ mid
                    @ error_block v1 c2 v2 h2 v3 a2 r2) \<le> j
        \<longrightarrow> rx_first nd error_pattern (prev_after None r j) (drop j r) = None"
  shows "findall nd error_pattern None r = [[c1, a1, r1], [c2, a2, r2]]"
proof -
  let ?b1 = "error_block w1 c1 w2 h1 w3 a1 r1"
  let ?b2 = "error_block v1 c2 v2 h2 v3 a2 r2"
  let ?f = "\<lambda>k. findall nd error_pattern (prev_after None r k) (drop k r)"
  have len: "length r = length pre + length ?b1 + length mid + length ?b2 + length post"
    unfolding r by simp
  have "?f 0 = ?f (length pre)"
    by (rule findall_skip_positions) (use out len in auto)
  moreover have "?f (length pre) = [c1, a1, r1] # ?f (length (pre @ ?b1))"
  proof (rule findall_block_position [OF tbl wf1 _ r])
    show "mid @ ?b2 @ post = [] \<or> hd (mid @ ?b2 @ post) = 0x0A" using mid by simp
  qed
  moreover have "?f (length (pre @ ?b1)) = ?f (length ((pre @ ?b1 @ mid)))"
    by (rule findall_skip_positions) (use out len in auto)
  moreover have "?f (length (pre @ ?b1 @ mid))
      = [c2, a2, r2] # ?f (length ((pre @ ?b1 @ mid) @ ?b2))"
    by (rule findall_block_position [OF tbl wf2 post]) (simp add: r)
  moreover have "?f (length ((pre @ ?b1 @ mid) @ ?b2)) = []"
    by (rule findall_none_positions) (use out len in auto)
  ultimately show ?thesis by simp
qed

text \<open>
  Claim C8, amended. Let the output decode as UTF-8 to a text that holds exactly two
  well-formed error blocks: the text between them starts a new line, the text behind
  them is empty or starts a new line, and outside the two blocks the pattern matches at
  no position. Then the parser returns exactly two records, in the order of the blocks,
  each with the code, the action and the reason of its block, from which the carriage
  returns at both ends are stripped and nothing else. (No decimal digit of the Unicode
  tables is white space.)
\<close>

theorem parse_errors_two_blocks:
  assumes "\<forall>c. nd c \<longrightarrow> \<not> is_space c"
    and "decode output = Some r"
    and "r = pre @ error_block w1 c1 w2 h1 w3 a1 r1 @ mid
             @ error_block v1 c2 v2 h2 v3 a2 r2 @ post"
    and "well_formed_block nd w1 c1 w2 h1 w3 a1 r1"
    and "well_formed_block nd v1 c2 v2 h2 v3 a2 r2"
    and "mid \<noteq> []" and "hd mid = 0x0A"
    and "post = [] \<or> hd post = 0x0A"
    and "\<forall>j \<le> length r.
        j < length pre
        \<or> (length (pre @ error_block w1 c1 w2 h1 w3 a1 r1) \<le> j
            \<and> j < length (pre @ error_block w1 c1 w2 h1 w3 a1 r1 @ mid))
        \<or> length (pre @ error_block w1 c1 w2 h1 w3 a1 r1 @ mid
                    @ error_block v1 c2 v2 h2 v3 a2 r2) \<le> j
        \<longrightarrow> rx_first nd error_pattern (prev_after None r j) (drop j r) = None"
  shows "parse_errors_from_robocopy_stdout nd output
         = ([], Returns (Some [RobocopyErrorInfo (strip_cr c1) (strip_cr a1) (strip_cr r1),
                               RobocopyErrorInfo (strip_cr c2) (strip_cr a2) (strip_cr r2)]))"
  using assms(2) findall_two_blocks_positions [OF assms(1,3,4,5,6,7,8,9)]
  by (simp add: parse_errors_from_robocopy_stdout_def)

theorem parse_errors_two_blocks_witness:
  "parse_errors_from_robocopy_stdout (\<lambda>c. False)
     (''t ERROR 5 (0x5) a'' @ [CHR 0x0D, CHR 0x0A] @ ''b'' @ [CHR 0x0D, CHR 0x0A]
      @ ''ERROR: RETRY'' @ [CHR 0x0D, CHR 0x0A]
      @ ''ERROR 32 (0x20) c'' @ [CHR 0x0D, CHR 0x0A] @ ''d'' @ [CHR 0x0D])
   = ([], Returns (Some [RobocopyErrorInfo [53] [97] [98],
                         RobocopyErrorInfo [51, 50] [99] [100]]))"
proof -
  let ?r = "[116, 32, 69, 82, 82, 79, 82, 32, 53, 32, 40, 48, 120, 53, 41, 32, 97, 13, 10,
             98, 13, 10, 69, 82, 82, 79, 82, 58, 32, 82, 69, 84, 82, 89, 13, 10, 69, 82, 82,
             79, 82, 32, 51, 50, 32, 40, 48, 120, 50, 48, 41, 32, 99, 13, 10, 100, 13] :: str"
  let ?b1 = "error_block [32] [53] [32] [53] [32] [97, 13] [98, 13]"
  let ?mid = "[10, 69, 82, 82, 79, 82, 58, 32, 82, 69, 84, 82, 89, 13, 10] :: str"
  let ?b2 = "error_block [32] [51, 50] [32] [50, 48] [32] [99, 13] [100, 13]"
  have d: "decode (''t ERROR 5 (0x5) a'' @ [CHR 0x0D, CHR 0x0A] @ ''b'' @ [CHR 0x0D, CHR 0x0A]
      @ ''ERROR: RETRY'' @ [CHR 0x0D, CHR 0x0A]
      @ ''ERROR 32 (0x20) c'' @ [CHR 0x0D, CHR 0x0A] @ ''d'' @ [CHR 0x0D]) = Some ?r"
    by (simp add: decode_def)
  have r: "?r = [116, 32] @ ?b1 @ ?mid @ ?b2 @ []"
    by (simp add: error_block_def cps_def)
  have len: "length ?r = 57" "length [116, 32 :: nat] = 2" "length ([116, 32] @ ?b1) = 21"
    "length ([116, 32] @ ?b1 @ ?mid) = 36" "length ([116, 32] @ ?b1 @ ?mid @ ?b2) = 57"
    by (simp_all add: error_block_def cps_def)
  have pos: "\<forall>j \<in> set ([0..<2] @ [21..<36] @ [57..<58]).
      rx_first (\<lambda>c. False) error_pattern (prev_after None ?r j) (drop j ?r) = None"
    by (simp add: upt_rec rx_first_def error_pattern_def cps_def prev_after_def is_space_def)
  have out: "\<forall>j \<le> length ?r.
      j < length [116, 32 :: nat]
      \<or> (length ([116, 32] @ ?b1) \<le> j \<and> j < length ([116, 32] @ ?b1 @ ?mid))
      \<or> length ([116, 32] @ ?b1 @ ?mid @ ?b2) \<le> j
      \<longrightarrow> rx_first (\<lambda>c. False) error_pattern (prev_after None ?r j) (drop j ?r) = None"
  proof (intro allI impI)
    fix j :: nat
    assume "j \<le> length ?r"
      and "j < length [116, 32 :: nat]
        \<or> (length ([116, 32] @ ?b1) \<le> j \<and> j < length ([116, 32] @ ?b1 @ ?mid))
        \<or> length ([116, 32] @ ?b1 @ ?mid @ ?b2) \<le> j"
    then have "j \<in> set ([0..<2] @ [21..<36] @ [57..<58])"
      unfolding len set_append set_upt by auto
    with pos show "rx_first (\<lambda>c. False) error_pattern (prev_after None ?r j) (drop j ?r) = None"
      by blast
  qed
  have "parse_errors_from_robocopy_stdout (\<lambda>c. False)
     (''t ERROR 5 (0x5) a'' @ [CHR 0x0D, CHR 0x0A] @ ''b'' @ [CHR 0x0D, CHR 0x0A]
      @ ''ERROR: RETRY'' @ [CHR 0x0D, CHR 0x0A]
      @ ''ERROR 32 (0x20) c'' @ [CHR 0x0D, CHR 0x0A] @ ''d'' @ [CHR 0x0D])
   = ([], Returns (Some [RobocopyErrorInfo (strip_cr [53]) (strip_cr [97, 13]) (strip_cr [98, 13]),
        RobocopyErrorInfo (strip_cr [51, 50]) (strip_cr [99, 13]) (strip_cr [100, 13])]))"
    by (rule parse_errors_two_blocks [OF _ d r _ _ _ _ _ out])
      (simp_all add: well_formed_block_def is_space_def is_ascii_digit_def is_hex_digit_def)
  then show ?thesis by (simp add: strip_cr_def)
qed

text \<open>
  Two well-formed blocks whose fields are not trimmed in the records: the action of
  the first keeps the blank at its end, the reason of the second the blank at its
  start.
\<close>

theorem parse_errors_untrimmed_counterexample:
  "snd (parse_errors_from_robocopy_stdout (\<lambda>c. False)
     (''ERROR 5 (0x5) a '' @ [CHR 0x0A] @ ''b'' @ [CHR 0x0A]
      @ ''ERROR 6 (0x6) c'' @ [CHR 0x0A] @ '' d''))
   = Returns (Some [RobocopyErrorInfo [53] [97, 32] [98], RobocopyErrorInfo [54] [99] [32, 100]])
   \<and> strip_space [97, 32] = [97] \<and> strip_space [32, 100] = [100]"
proof -
  have d: "decode (''ERROR 5 (0x5) a '' @ [CHR 0x0A] @ ''b'' @ [CHR 0x0A]
      @ ''ERROR 6 (0x6) c'' @ [CHR 0x0A] @ '' d'')
    = Some [69, 82, 82, 79, 82, 32, 53, 32, 40, 48, 120, 53, 41, 32, 97, 32, 10, 98, 10,
            69, 82, 82, 79, 82, 32, 54, 32, 40, 48, 120, 54, 41, 32, 99, 10, 32, 100]"
    by (simp add: decode_def)
  have f: "findall (\<lambda>c. False) error_pattern None
      [69, 82, 82, 79, 82, 32, 53, 32, 40, 48, 120, 53, 41, 32, 97, 32, 10, 98, 10,
       69, 82, 82, 79, 82, 32, 54, 32, 40, 48, 120, 54, 41, 32, 99, 10, 32, 100]
    = [[[53], [97, 32], [98]], [[54], [99], [32, 100]]]"
    by (simp add: findall.simps error_pattern_def cps_def rx_first_def prev_after_def
        is_space_def is_ascii_digit_def is_hex_digit_def)
  show ?thesis
    unfolding parse_errors_from_robocopy_stdout_def d
    by (simp add: f strip_cr_def strip_space_def is_space_def)
qed

section \<open>The exit status of robocopy\<close>

text \<open>
  What \<open>robocopy_call\<close> does with the exit status: below 8 it returns, from 2 to 7
  after logging that this is no failure; from 8 on it raises \<open>RobocopyError\<close> with the
  status and the parsed records when the output decodes as UTF-8, and
  \<open>UnicodeDecodeError\<close> when it does not.
\<close>

lemma robocopy_call_status:
  assumes "subprocess (robocopy_cmd src dst sec skip) (sil = 0)
           = (exit_code, output)"
  shows "(exit_code < 8 \<longrightarrow>
            snd (robocopy_call nd subprocess src dst sil sec skip)
            = Returns ())
       \<and> (2 \<le> exit_code \<and> exit_code < 8 \<longrightarrow>
            Log (DebugNotAFailure exit_code)
            \<in> set (fst (robocopy_call nd subprocess src dst sil sec skip)))
       \<and> (8 \<le> exit_code \<and> decode output \<noteq> None \<longrightarrow>
            (\<exists>lg error_info.
               parse_errors_from_robocopy_stdout nd output = (lg, Returns error_info)
               \<and> snd (robocopy_call nd subprocess src dst sil sec skip)
                 = Raises (RobocopyError exit_code error_info)))
       \<and> (8 \<le> exit_code \<and> decode output = None \<longrightarrow>
            snd (robocopy_call nd subprocess src dst sil sec skip)
            = Raises UnicodeDecodeError)"
proof -
  have "8 \<le> exit_code \<Longrightarrow> decode output \<noteq> None \<Longrightarrow>
      \<exists>lg error_info.
         parse_errors_from_robocopy_stdout nd output = (lg, Returns error_info)
         \<and> snd (robocopy_call nd subprocess src dst sil sec skip)
           = Raises (RobocopyError exit_code error_info)"
  proof -
    assume e: "8 \<le> exit_code" and "decode output \<noteq> None"
    then obtain lg error_info where
      p: "parse_errors_from_robocopy_stdout nd output = (lg, Returns error_info)"
      using parse_decoded [of "output" _ nd] by auto
    with e assms show ?thesis by (simp add: robocopy_call_def)
  qed
  moreover have "8 \<le> exit_code \<Longrightarrow> decode output = None \<Longrightarrow>
      snd (robocopy_call nd subprocess src dst sil sec skip)
      = Raises UnicodeDecodeError"
    using assms by (simp add: robocopy_call_def parse_errors_from_robocopy_stdout_def)
  ultimately show ?thesis
    using assms by (auto simp: robocopy_call_def)
qed

text \<open>
  Claim C1 fails on the code: with exit status 8 and the output \<open>b'\xff'\<close>, which is
  not UTF-8, \<open>robocopy_call\<close> raises \<open>UnicodeDecodeError\<close>, not \<open>RobocopyError\<close>.
\<close>

theorem robocopy_call_undecodable_output:
  "robocopy_call nd (\<lambda>cmd shell. (8, [CHR 0xFF])) src dst sil sec skip
   = ([Log (DebugNonzeroExit 8)], Raises UnicodeDecodeError)"
  by (simp add: robocopy_call_def parse_errors_from_robocopy_stdout_def decode_def)

end
